theory Spec2Isabelle
  imports Complex_Main "HOL-Library.Multiset"
begin

section \<open>Record model (ModelConfig.ts)\<close>

text \<open>
  The library is TypeScript. Its \<^verbatim>\<open>number\<close> is read here as an exact real: no
  rounding, no NaN, no infinities. Prices, token counts and context sizes are all
  \<^verbatim>\<open>number\<close> in the source, hence all \<^typ>\<open>real\<close> here.
\<close>

datatype ReasoningEffort = XHIGH | HIGH | MEDIUM | LOW | NONE

datatype ModelProvider =
  ANTHROPIC | OPENAI | GOOGLE | DEEPSEEK | XAI | MOONSHOT | DASHSCOPE | COPILOT | OTHERS

text \<open>\<^verbatim>\<open>Object.values(ModelProvider)\<close>: the members of the string enum, in declaration order.\<close>

definition ModelProvider_values :: "ModelProvider list" where
  "ModelProvider_values =
     [ANTHROPIC, OPENAI, GOOGLE, DEEPSEEK, XAI, MOONSHOT, DASHSCOPE, COPILOT, OTHERS]"

record ModelCapabilities =
  supportsFunctionCalling :: bool
  supportsNativeMCPServer :: bool
  supportsNativeWebSearch :: bool
  supportsDynamicFilteringWebSearch :: bool
  supportsNativeCodeExecution :: bool
  supportsPromptCaching :: bool
  supportsAutoPromptCaching :: bool
  cacheDiscountFactor :: real
  supportsReasoning :: bool
  supportsInterleavedThinking :: bool
  supportsReasoningEffort :: bool
  reasoningEffort :: ReasoningEffort
  supportsVision :: bool
  supportsNativePdf :: bool
  supportsNativeAudio :: bool
  supportsAssistantPrefill :: bool
  supportsPredictiveOutput :: bool
  supportsTokenCounting :: bool
  supportsSystemPrompt :: bool
  supportsIntermDevMsgs :: bool

definition DEFAULT_MODEL_CAPABILITIES :: ModelCapabilities where
  "DEFAULT_MODEL_CAPABILITIES = \<lparr>
     supportsFunctionCalling = True,
     supportsNativeMCPServer = False,
     supportsNativeWebSearch = False,
     supportsDynamicFilteringWebSearch = False,
     supportsNativeCodeExecution = False,
     supportsPromptCaching = False,
     supportsAutoPromptCaching = False,
     cacheDiscountFactor = 1,
     supportsReasoning = False,
     supportsInterleavedThinking = False,
     supportsReasoningEffort = False,
     reasoningEffort = NONE,
     supportsVision = True,
     supportsNativePdf = False,
     supportsNativeAudio = False,
     supportsAssistantPrefill = False,
     supportsPredictiveOutput = False,
     supportsTokenCounting = False,
     supportsSystemPrompt = True,
     supportsIntermDevMsgs = False \<rparr>"

record ModelConfig =
  name :: string
  fullName :: string
  provider :: ModelProvider
  maxOutputTokens :: real
  inputPrice :: real
  outputPrice :: real
  contextWindow :: real
  capabilities :: ModelCapabilities
  openRouterOnly :: bool
  openrouterFullName :: "string option"
  baseUrl :: "string option"
  requiresResponsesAPI :: "bool option"
  deprecated :: "bool option"

subsection \<open>Reading a capability by key\<close>

text \<open>
  \<^verbatim>\<open>keyof ModelCapabilities\<close> is the closed set of the twenty field names; a value read
  through such a key is a boolean, a number or a reasoning effort. \<open>VUndefined\<close> is
  JavaScript's \<^verbatim>\<open>undefined\<close>: no field of a capability record holds it, but a
  \<^verbatim>\<open>Partial<ModelCapabilities>\<close> may.
\<close>

datatype capability =
    SupportsFunctionCalling | SupportsNativeMCPServer | SupportsNativeWebSearch
  | SupportsDynamicFilteringWebSearch | SupportsNativeCodeExecution | SupportsPromptCaching
  | SupportsAutoPromptCaching | CacheDiscountFactor | SupportsReasoning
  | SupportsInterleavedThinking | SupportsReasoningEffort | ReasoningEffortKey
  | SupportsVision | SupportsNativePdf | SupportsNativeAudio | SupportsAssistantPrefill
  | SupportsPredictiveOutput | SupportsTokenCounting | SupportsSystemPrompt
  | SupportsIntermDevMsgs

datatype capval = VBool bool | VNum real | VEffort ReasoningEffort | VUndefined

fun key_name :: "capability \<Rightarrow> string" where
  "key_name SupportsFunctionCalling = ''supportsFunctionCalling''"
| "key_name SupportsNativeMCPServer = ''supportsNativeMCPServer''"
| "key_name SupportsNativeWebSearch = ''supportsNativeWebSearch''"
| "key_name SupportsDynamicFilteringWebSearch = ''supportsDynamicFilteringWebSearch''"
| "key_name SupportsNativeCodeExecution = ''supportsNativeCodeExecution''"
| "key_name SupportsPromptCaching = ''supportsPromptCaching''"
| "key_name SupportsAutoPromptCaching = ''supportsAutoPromptCaching''"
| "key_name CacheDiscountFactor = ''cacheDiscountFactor''"
| "key_name SupportsReasoning = ''supportsReasoning''"
| "key_name SupportsInterleavedThinking = ''supportsInterleavedThinking''"
| "key_name SupportsReasoningEffort = ''supportsReasoningEffort''"
| "key_name ReasoningEffortKey = ''reasoningEffort''"
| "key_name SupportsVision = ''supportsVision''"
| "key_name SupportsNativePdf = ''supportsNativePdf''"
| "key_name SupportsNativeAudio = ''supportsNativeAudio''"
| "key_name SupportsAssistantPrefill = ''supportsAssistantPrefill''"
| "key_name SupportsPredictiveOutput = ''supportsPredictiveOutput''"
| "key_name SupportsTokenCounting = ''supportsTokenCounting''"
| "key_name SupportsSystemPrompt = ''supportsSystemPrompt''"
| "key_name SupportsIntermDevMsgs = ''supportsIntermDevMsgs''"

text \<open>\<^verbatim>\<open>caps[key]\<close> for a key of the capability record.\<close>

fun get_capability :: "ModelCapabilities \<Rightarrow> capability \<Rightarrow> capval" where
  "get_capability c SupportsFunctionCalling = VBool (supportsFunctionCalling c)"
| "get_capability c SupportsNativeMCPServer = VBool (supportsNativeMCPServer c)"
| "get_capability c SupportsNativeWebSearch = VBool (supportsNativeWebSearch c)"
| "get_capability c SupportsDynamicFilteringWebSearch =
     VBool (supportsDynamicFilteringWebSearch c)"
| "get_capability c SupportsNativeCodeExecution = VBool (supportsNativeCodeExecution c)"
| "get_capability c SupportsPromptCaching = VBool (supportsPromptCaching c)"
| "get_capability c SupportsAutoPromptCaching = VBool (supportsAutoPromptCaching c)"
| "get_capability c CacheDiscountFactor = VNum (cacheDiscountFactor c)"
| "get_capability c SupportsReasoning = VBool (supportsReasoning c)"
| "get_capability c SupportsInterleavedThinking = VBool (supportsInterleavedThinking c)"
| "get_capability c SupportsReasoningEffort = VBool (supportsReasoningEffort c)"
| "get_capability c ReasoningEffortKey = VEffort (reasoningEffort c)"
| "get_capability c SupportsVision = VBool (supportsVision c)"
| "get_capability c SupportsNativePdf = VBool (supportsNativePdf c)"
| "get_capability c SupportsNativeAudio = VBool (supportsNativeAudio c)"
| "get_capability c SupportsAssistantPrefill = VBool (supportsAssistantPrefill c)"
| "get_capability c SupportsPredictiveOutput = VBool (supportsPredictiveOutput c)"
| "get_capability c SupportsTokenCounting = VBool (supportsTokenCounting c)"
| "get_capability c SupportsSystemPrompt = VBool (supportsSystemPrompt c)"
| "get_capability c SupportsIntermDevMsgs = VBool (supportsIntermDevMsgs c)"

text \<open>JavaScript truthiness of such a value (an enum member is a non-empty string).\<close>

fun truthy :: "capval \<Rightarrow> bool" where
  "truthy (VBool b) = b"
| "truthy (VNum x) = (x \<noteq> 0)"
| "truthy (VEffort e) = True"
| "truthy VUndefined = False"

section \<open>Registry (ModelRegistry.ts)\<close>

text \<open>
  \<^verbatim>\<open>MODEL_CONFIGS\<close> is an object literal that spreads the eleven provider tables.
  The operations below do not depend on what the tables hold, so the registry is a
  parameter of every one of them: the own properties of the object as (key, entry)
  pairs, in the order in which \<^verbatim>\<open>Object.values\<close> visits them.
\<close>

type_synonym registry = "(string \<times> ModelConfig) list"

definition Object_values :: "registry \<Rightarrow> ModelConfig list" where
  "Object_values reg = map snd reg"

text \<open>
  An object literal has \<^verbatim>\<open>Object.prototype\<close> as its prototype, so reading a property
  that is not an own property falls through to it, and the \<^verbatim>\<open>in\<close> operator sees
  it too. These are the property names of \<^verbatim>\<open>Object.prototype\<close>; each of them holds
  a function or an object, never a model configuration.
\<close>

definition Object_prototype_keys :: "string list" where
  "Object_prototype_keys =
     [''constructor'', ''__defineGetter__'', ''__defineSetter__'', ''hasOwnProperty'',
      ''__lookupGetter__'', ''__lookupSetter__'', ''isPrototypeOf'',
      ''propertyIsEnumerable'', ''toString'', ''valueOf'', ''__proto__'',
      ''toLocaleString'']"

text \<open>
  What \<^verbatim>\<open>MODEL_CONFIGS[name]\<close> evaluates to: an entry, a value inherited from the
  prototype (kept by its name), or \<^verbatim>\<open>undefined\<close>.
\<close>

datatype property = Undefined | Entry ModelConfig | Inherited string

section \<open>Query engine (utils.ts)\<close>

definition lookup :: "registry \<Rightarrow> string \<Rightarrow> property" where
  "lookup reg nm =
     (case map_of reg nm of
        Some m \<Rightarrow> Entry m
      | None \<Rightarrow> if nm \<in> set Object_prototype_keys then Inherited nm else Undefined)"

definition resolve :: "registry \<Rightarrow> string \<Rightarrow> ModelConfig option" where
  "resolve reg full = find (\<lambda>m. fullName m = full) (Object_values reg)"

definition exists :: "registry \<Rightarrow> string \<Rightarrow> bool" where
  "exists reg nm \<longleftrightarrow> nm \<in> fst ` set reg \<or> nm \<in> set Object_prototype_keys"

text \<open>\<^verbatim>\<open>from\<close> and \<^verbatim>\<open>where\<close> of the source (both reserved words here).\<close>

definition from_provider :: "registry \<Rightarrow> ModelProvider \<Rightarrow> ModelConfig list" where
  "from_provider reg p = filter (\<lambda>m. provider m = p) (Object_values reg)"

definition where_caps :: "registry \<Rightarrow> (ModelCapabilities \<Rightarrow> bool) \<Rightarrow> ModelConfig list" where
  "where_caps reg predicate = filter (\<lambda>m. predicate (capabilities m)) (Object_values reg)"

text \<open>
  \<^verbatim>\<open>typeof value === 'boolean' ? value : value !== undefined\<close>: a boolean flag decides
  by itself, any other value passes unless it is \<^verbatim>\<open>undefined\<close>.
\<close>

definition supporting :: "registry \<Rightarrow> capability \<Rightarrow> ModelConfig list" where
  "supporting reg cap =
     filter (\<lambda>m. case get_capability (capabilities m) cap of
                   VBool b \<Rightarrow> b
                 | v \<Rightarrow> v \<noteq> VUndefined)
       (Object_values reg)"

definition withContext :: "registry \<Rightarrow> real \<Rightarrow> ModelConfig list" where
  "withContext reg minTokens = filter (\<lambda>m. contextWindow m \<ge> minTokens) (Object_values reg)"

definition directAccess :: "registry \<Rightarrow> ModelConfig list" where
  "directAccess reg = filter (\<lambda>m. \<not> openRouterOnly m) (Object_values reg)"

text \<open>\<^verbatim>\<open>openRouterOnly()\<close>, renamed because the entry's field has that name.\<close>

definition openRouterOnly_models :: "registry \<Rightarrow> ModelConfig list" where
  "openRouterOnly_models reg = filter (\<lambda>m. openRouterOnly m) (Object_values reg)"

section \<open>Cost engine (utils.ts)\<close>

text \<open>
  The cost functions take \<^verbatim>\<open>ModelConfig | string\<close>. They throw
  \<^verbatim>\<open>new Error(`Unknown model: ${model}`)\<close>; reading a property of \<^verbatim>\<open>undefined\<close>
  throws a \<^verbatim>\<open>TypeError\<close>.
\<close>

datatype model_arg = Config ModelConfig | Key string

datatype error = Error string | TypeError

text \<open>
  The \<^verbatim>\<open>tokens\<close> argument \<^verbatim>\<open>{ input, output, cached? }\<close>; the fields carry a prefix
  because \<^verbatim>\<open>output\<close> is a reserved word here.
\<close>

record tokens =
  tk_input :: real
  tk_output :: real
  tk_cached :: "real option"

text \<open>\<^verbatim>\<open>typeof model === 'string' ? lookup(model) : model\<close>\<close>

fun to_config :: "registry \<Rightarrow> model_arg \<Rightarrow> property" where
  "to_config reg (Key k) = lookup reg k"
| "to_config reg (Config m) = Entry m"

text \<open>The interpolation \<^verbatim>\<open>${model}\<close> is only ever evaluated for a string argument.\<close>

fun unknown_model :: "model_arg \<Rightarrow> error" where
  "unknown_model (Key k) = Error (''Unknown model: '' @ k)"
| "unknown_model (Config m) = Error (''Unknown model: [object Object]'')"

text \<open>
  The arithmetic of \<^verbatim>\<open>cost\<close> on a configuration. On a value inherited from the
  prototype, \<^verbatim>\<open>config.capabilities\<close> is \<^verbatim>\<open>undefined\<close> and reading
  \<^verbatim>\<open>cacheDiscountFactor\<close> from it throws.
\<close>

definition cost :: "registry \<Rightarrow> model_arg \<Rightarrow> tokens \<Rightarrow> error + real" where
  "cost reg model tk =
     (case to_config reg model of
        Undefined \<Rightarrow> Inl (unknown_model model)
      | Inherited p \<Rightarrow> Inl TypeError
      | Entry config \<Rightarrow>
          (let cached = (case tk_cached tk of None \<Rightarrow> 0 | Some c \<Rightarrow> c);
               uncached = tk_input tk - cached;
               inputCost = (uncached / 1000000) * inputPrice config;
               cacheCost = (cached / 1000000) * inputPrice config
                             * cacheDiscountFactor (capabilities config);
               outputCost = (tk_output tk / 1000000) * outputPrice config
           in Inr (inputCost + cacheCost + outputCost)))"

text \<open>
  \<^verbatim>\<open>maxCost\<close> resolves the model itself and then calls \<^verbatim>\<open>cost\<close> on what it found,
  with no cached amount; an inherited value passes the check and fails inside
  \<^verbatim>\<open>cost\<close>.
\<close>

definition maxCost :: "registry \<Rightarrow> model_arg \<Rightarrow> real \<Rightarrow> error + real" where
  "maxCost reg model inputTokens =
     (case to_config reg model of
        Undefined \<Rightarrow> Inl (unknown_model model)
      | Inherited p \<Rightarrow> Inl TypeError
      | Entry config \<Rightarrow>
          cost reg (Config config)
            \<lparr>tk_input = inputTokens, tk_output = maxOutputTokens config, tk_cached = None\<rparr>)"

subsection \<open>Sorting an array\<close>

text \<open>
  \<^verbatim>\<open>Array.prototype.sort(compareFn)\<close> is stable and puts \<open>a\<close> before \<open>b\<close> when
  \<^verbatim>\<open>compareFn(a, b) < 0\<close>. Every comparator in utils.ts is the difference of a
  numeric key, so the outcome does not depend on the engine's algorithm: it is the
  stable sorted arrangement, computed here by insertion from the right.
\<close>

fun insert_sorted :: "('a \<Rightarrow> 'a \<Rightarrow> real) \<Rightarrow> 'a \<Rightarrow> 'a list \<Rightarrow> 'a list" where
  "insert_sorted compareFn x [] = [x]"
| "insert_sorted compareFn x (y # ys) =
     (if compareFn x y \<le> 0 then x # y # ys else y # insert_sorted compareFn x ys)"

definition Array_sort :: "('a \<Rightarrow> 'a \<Rightarrow> real) \<Rightarrow> 'a list \<Rightarrow> 'a list" where
  "Array_sort compareFn xs = foldr (insert_sorted compareFn) xs []"

text \<open>\<^verbatim>\<open>xs[0]\<close> and \<^verbatim>\<open>xs[xs.length - 1]\<close>; out of range they are \<^verbatim>\<open>undefined\<close>.\<close>

definition first_elem :: "'a list \<Rightarrow> 'a option" where
  "first_elem xs = (case xs of [] \<Rightarrow> None | x # _ \<Rightarrow> Some x)"

definition last_elem :: "'a list \<Rightarrow> 'a option" where
  "last_elem xs = (if xs = [] then None else Some (last xs))"

subsection \<open>compareCosts\<close>

text \<open>The objects \<^verbatim>\<open>{ model, cost }\<close> that \<^verbatim>\<open>compareCosts\<close> returns.\<close>

record model_cost =
  mc_model :: ModelConfig
  mc_cost :: real

text \<open>The \<^verbatim>\<open>.map\<close> callback, applied left to right; the first throw ends the call.\<close>

fun compareCosts_map :: "registry \<Rightarrow> model_arg list \<Rightarrow> tokens \<Rightarrow> error + model_cost list" where
  "compareCosts_map reg [] tk = Inr []"
| "compareCosts_map reg (m # ms) tk =
     (case to_config reg m of
        Undefined \<Rightarrow> Inl (unknown_model m)
      | Inherited p \<Rightarrow> Inl TypeError
      | Entry config \<Rightarrow>
          (case cost reg (Config config) tk of
             Inl e \<Rightarrow> Inl e
           | Inr c \<Rightarrow>
               (case compareCosts_map reg ms tk of
                  Inl e \<Rightarrow> Inl e
                | Inr rest \<Rightarrow> Inr (\<lparr>mc_model = config, mc_cost = c\<rparr> # rest))))"

definition compareCosts :: "registry \<Rightarrow> model_arg list \<Rightarrow> tokens \<Rightarrow> error + model_cost list" where
  "compareCosts reg models tk =
     (case compareCosts_map reg models tk of
        Inl e \<Rightarrow> Inl e
      | Inr rs \<Rightarrow> Inr (Array_sort (\<lambda>a b. mc_cost a - mc_cost b) rs))"

section \<open>Selection engine (utils.ts)\<close>

text \<open>
  A \<^verbatim>\<open>Partial<ModelCapabilities>\<close> is given by its \<^verbatim>\<open>Object.entries\<close>. The loop
  over them returns false at the first entry whose value differs (\<^verbatim>\<open>!==\<close>) from the
  model's.
\<close>

type_synonym partial_capabilities = "(capability \<times> capval) list"

definition capabilities_match :: "partial_capabilities \<Rightarrow> ModelConfig \<Rightarrow> bool" where
  "capabilities_match caps m =
     list_all (\<lambda>(key, v). get_capability (capabilities m) key = v) caps"

text \<open>
  The options of \<^verbatim>\<open>cheapest\<close>, \<^verbatim>\<open>{ minContext?, provider? }\<close>, themselves optional.
  \<^verbatim>\<open>options?.minContext && ...\<close> skips the test when the bound is absent or falsy,
  that is 0; a provider is a non-empty string, hence truthy whenever present.
\<close>

record cheapest_options =
  minContext :: "real option"
  opt_provider :: "ModelProvider option"

definition cheapest_candidate ::
    "partial_capabilities \<Rightarrow> cheapest_options option \<Rightarrow> ModelConfig \<Rightarrow> bool" where
  "cheapest_candidate caps options m =
     (if (case Option.bind options minContext of
            Some c \<Rightarrow> c \<noteq> 0 \<and> contextWindow m < c
          | None \<Rightarrow> False) then False
      else if (case Option.bind options opt_provider of
                 Some p \<Rightarrow> provider m \<noteq> p
               | None \<Rightarrow> False) then False
      else capabilities_match caps m)"

definition cheapest ::
    "registry \<Rightarrow> partial_capabilities \<Rightarrow> cheapest_options option \<Rightarrow> ModelConfig option" where
  "cheapest reg caps options =
     (let candidates = filter (cheapest_candidate caps options) (Object_values reg)
      in if length candidates = 0 then None
         else first_elem
                (Array_sort (\<lambda>a b. inputPrice a + outputPrice a - (inputPrice b + outputPrice b))
                   candidates))"

text \<open>\<^verbatim>\<open>if (capabilities)\<close> holds for every object, the empty one included.\<close>

definition smartpick ::
    "registry \<Rightarrow> real \<Rightarrow> partial_capabilities option \<Rightarrow> ModelConfig option" where
  "smartpick reg maxPricePerMillion caps =
     (let candidates0 = filter (\<lambda>m. inputPrice m + outputPrice m \<le> maxPricePerMillion)
                          (Object_values reg);
          candidates = (case caps of
                          None \<Rightarrow> candidates0
                        | Some cs \<Rightarrow> filter (capabilities_match cs) candidates0)
      in if length candidates = 0 then None
         else first_elem
                (Array_sort (\<lambda>a b. (inputPrice b + outputPrice b) - (inputPrice a + outputPrice a))
                   candidates))"

datatype metric = Price | Context | Output

datatype sort_order = Asc | Desc

fun getValue :: "metric \<Rightarrow> ModelConfig \<Rightarrow> real" where
  "getValue Price m = inputPrice m + outputPrice m"
| "getValue Context m = contextWindow m"
| "getValue Output m = maxOutputTokens m"

text \<open>The order parameter defaults to \<^verbatim>\<open>'asc'\<close>.\<close>

definition ranked :: "registry \<Rightarrow> metric \<Rightarrow> sort_order option \<Rightarrow> ModelConfig list" where
  "ranked reg by ord =
     (let order = (case ord of None \<Rightarrow> Asc | Some v \<Rightarrow> v)
      in Array_sort (\<lambda>a b. let diff = getValue by a - getValue by b
                           in if order = Asc then diff else - diff)
           (Object_values reg))"

section \<open>Insights engine (utils.ts)\<close>

text \<open>\<^verbatim>\<open>s.replace(pattern, replacement)\<close> with a string pattern: the first occurrence only.\<close>

fun String_replace :: "string \<Rightarrow> string \<Rightarrow> string \<Rightarrow> string" where
  "String_replace [] pat rep = (if pat = [] then rep else [])"
| "String_replace (c # cs) pat rep =
     (if take (length pat) (c # cs) = pat then rep @ drop (length pat) (c # cs)
      else c # String_replace cs pat rep)"

definition capabilityKeys :: "capability list" where
  "capabilityKeys =
     [SupportsFunctionCalling, SupportsReasoning, SupportsVision, SupportsNativeCodeExecution,
      SupportsNativeWebSearch, SupportsPromptCaching, SupportsNativePdf, SupportsNativeAudio]"

text \<open>
  The returned object, with \<^verbatim>\<open>pricing\<close> and \<^verbatim>\<open>context\<close> flattened. The two records
  \<^verbatim>\<open>providers\<close> and \<^verbatim>\<open>capabilities\<close> are their entries in insertion order (the keys
  assigned are pairwise different). An index into an empty array gives \<^verbatim>\<open>undefined\<close>,
  hence the options.
\<close>

record insights_result =
  totalModels :: nat
  providers :: "(ModelProvider \<times> nat) list"
  capability_counts :: "(string \<times> nat) list"
  pricing_cheapest :: "ModelConfig option"
  pricing_mostExpensive :: "ModelConfig option"
  context_smallest :: "ModelConfig option"
  context_largest :: "ModelConfig option"

definition insights :: "registry \<Rightarrow> insights_result" where
  "insights reg =
     (let models = Object_values reg;
          byPrice = Array_sort
                      (\<lambda>a b. inputPrice a + outputPrice a - (inputPrice b + outputPrice b)) models;
          byContext = Array_sort (\<lambda>a b. contextWindow a - contextWindow b) models
      in \<lparr> totalModels = length models,
           providers =
             map (\<lambda>p. (p, length (filter (\<lambda>m. provider m = p) models))) ModelProvider_values,
           capability_counts =
             map (\<lambda>key. (String_replace (String_replace (key_name key) ''supports'' [])
                                        ''Native'' [],
                         length (filter (\<lambda>m. truthy (get_capability (capabilities m) key))
                                   models)))
               capabilityKeys,
           pricing_cheapest = first_elem byPrice,
           pricing_mostExpensive = last_elem byPrice,
           context_smallest = first_elem byContext,
           context_largest = last_elem byContext \<rparr>)"

section \<open>Sample entries\<close>

text \<open>
  Entries used to evaluate the operations: the entry A of the specification's scenarios
  (input price 3, output price 15, context window 200000, cache discount factor 0.1),
  and \<^verbatim>\<open>grok4\<close>, \<^verbatim>\<open>grok3\<close> (xaiModels.ts) and \<^verbatim>\<open>llama31\<close> (otherModels.ts) as the
  provider tables define them.
\<close>

definition scenario_A :: ModelConfig where
  "scenario_A = \<lparr>name = ''A'', fullName = ''A'', provider = ANTHROPIC, maxOutputTokens = 64000,
     inputPrice = 3, outputPrice = 15, contextWindow = 200000,
     capabilities = DEFAULT_MODEL_CAPABILITIES\<lparr>cacheDiscountFactor := 1 / 10\<rparr>,
     openRouterOnly = False, openrouterFullName = None, baseUrl = None,
     requiresResponsesAPI = None, deprecated = None\<rparr>"

definition XAI_DEFAULT_CAPABILITIES :: ModelCapabilities where
  "XAI_DEFAULT_CAPABILITIES = DEFAULT_MODEL_CAPABILITIES\<lparr>supportsVision := False\<rparr>"

definition grok4 :: ModelConfig where
  "grok4 = \<lparr>name = ''grok4'', fullName = ''grok-4-0709'', provider = XAI,
     maxOutputTokens = 128000, inputPrice = 3, outputPrice = 15, contextWindow = 256000,
     capabilities = XAI_DEFAULT_CAPABILITIES
       \<lparr>supportsReasoning := True, supportsReasoningEffort := False\<rparr>,
     openRouterOnly = False, openrouterFullName = Some ''x-ai/grok-4-0709'', baseUrl = None,
     requiresResponsesAPI = None, deprecated = None\<rparr>"

definition grok3 :: ModelConfig where
  "grok3 = \<lparr>name = ''grok3'', fullName = ''grok-3-beta'', provider = XAI,
     maxOutputTokens = 131072, inputPrice = 3, outputPrice = 15, contextWindow = 131072,
     capabilities = XAI_DEFAULT_CAPABILITIES
       \<lparr>supportsReasoning := False, supportsReasoningEffort := False\<rparr>,
     openRouterOnly = False, openrouterFullName = Some ''x-ai/grok-3'', baseUrl = None,
     requiresResponsesAPI = None, deprecated = None\<rparr>"

definition llama31 :: ModelConfig where
  "llama31 = \<lparr>name = ''llama31'', fullName = ''meta-llama/llama-3.1-405b-instruct'',
     provider = OTHERS, maxOutputTokens = 131072, inputPrice = 3, outputPrice = 3,
     contextWindow = 131072, capabilities = DEFAULT_MODEL_CAPABILITIES,
     openRouterOnly = True, openrouterFullName = Some ''meta-llama/llama-3.1-405b-instruct'',
     baseUrl = None, requiresResponsesAPI = None, deprecated = None\<rparr>"

text \<open>
  Synthetic entries that differ from A in name and prices only, for the scenarios that
  fix combined prices: B at 0.55, and a registry priced 0.55, 2.0 and 7.0.
\<close>

definition scenario_entry :: "string \<Rightarrow> real \<Rightarrow> real \<Rightarrow> ModelConfig" where
  "scenario_entry nm inP outP =
     scenario_A\<lparr>name := nm, fullName := nm, inputPrice := inP, outputPrice := outP\<rparr>"

definition scenario_B :: ModelConfig where
  "scenario_B = scenario_entry ''B'' (15 / 100) (40 / 100)"

definition budget_registry :: registry where
  "budget_registry =
     [(''p055'', scenario_entry ''p055'' (15 / 100) (40 / 100)),
      (''p2'', scenario_entry ''p2'' (1 / 2) (3 / 2)),
      (''p7'', scenario_entry ''p7'' 2 5)]"

definition sample_registry :: registry where
  "sample_registry = [(''grok4'', grok4), (''grok3'', grok3), (''llama31'', llama31)]"

section \<open>The constraints in the specification's words\<close>

text \<open>
  What \<^verbatim>\<open>cheapest\<close> requires of an entry according to the specification: every
  given capability field equal, the context window at least \<^verbatim>\<open>minContext\<close> when that
  is given, the provider equal to \<^verbatim>\<open>options.provider\<close> when that is given.
\<close>

definition satisfies ::
    "partial_capabilities \<Rightarrow> cheapest_options option \<Rightarrow> ModelConfig \<Rightarrow> bool" where
  "satisfies caps options m \<longleftrightarrow>
     (\<forall>(key, v)\<in>set caps. get_capability (capabilities m) key = v)
   \<and> (case Option.bind options minContext of None \<Rightarrow> True | Some c \<Rightarrow> contextWindow m \<ge> c)
   \<and> (case Option.bind options opt_provider of None \<Rightarrow> True | Some p \<Rightarrow> provider m = p)"

text \<open>
  What \<^verbatim>\<open>smartpick\<close> requires: a combined price within the budget and, when
  capabilities are given, every given field equal.
\<close>

definition within_budget :: "real \<Rightarrow> partial_capabilities option \<Rightarrow> ModelConfig \<Rightarrow> bool" where
  "within_budget b caps m \<longleftrightarrow>
     inputPrice m + outputPrice m \<le> b
   \<and> (case caps of None \<Rightarrow> True
       | Some cs \<Rightarrow> \<forall>(key, v)\<in>set cs. get_capability (capabilities m) key = v)"

section \<open>Auxiliary facts\<close>

lemmas sample_defs =
  scenario_A_def grok4_def grok3_def llama31_def
  XAI_DEFAULT_CAPABILITIES_def DEFAULT_MODEL_CAPABILITIES_def

subsection \<open>The comparators sort by key\<close>

text \<open>
  With a comparator that subtracts a key, \<open>Array_sort\<close> is the library's stable
  \<^const>\<open>sort_key\<close>; with the operands swapped it sorts by the negated key. The facts
  after that locate the first and the last element of a sorted list in the original.
\<close>

lemma insert_sorted_key:
  "insert_sorted (\<lambda>a b. f a - f b) x ys = insort_key f x ys"
  by (induction ys) auto

lemma Array_sort_key: "Array_sort (\<lambda>a b. f a - f b) xs = sort_key f xs"
  by (induction xs) (auto simp: Array_sort_def insert_sorted_key)

lemma insert_sorted_key_desc:
  "insert_sorted (\<lambda>a b. f b - f a) x ys = insort_key (\<lambda>a. - f a) x ys"
  by (induction ys) auto

lemma Array_sort_key_desc: "Array_sort (\<lambda>a b. f b - f a) xs = sort_key (\<lambda>a. - f a) xs"
  by (induction xs) (auto simp: Array_sort_def insert_sorted_key_desc)

lemma hd_sort_key:
  fixes f :: "'a \<Rightarrow> real"
  assumes "sort_key f xs = m # rest"
  shows "\<exists>ys zs. xs = ys @ m # zs \<and> (\<forall>y\<in>set ys. f m < f y) \<and> (\<forall>z\<in>set zs. f m \<le> f z)"
  using assms
proof (induction xs arbitrary: m rest)
  case Nil
  then show ?case by simp
next
  case (Cons x xs)
  show ?case
  proof (cases "sort_key f xs")
    case Nil
    then have "xs = []" by (metis length_sort length_0_conv)
    with Cons.prems have "x # xs = [] @ m # []" by simp
    then show ?thesis by (metis empty_iff list.set(1))
  next
    case (Cons m' rest')
    from Cons.IH [OF Cons] obtain ys zs where
      d: "xs = ys @ m' # zs" "\<forall>y\<in>set ys. f m' < f y" "\<forall>z\<in>set zs. f m' \<le> f z" by blast
    show ?thesis
    proof (cases "f x \<le> f m'")
      case True
      with Cons Cons.prems have "m = x" by simp
      moreover have "\<forall>z\<in>set xs. f x \<le> f z" using d True by fastforce
      ultimately show ?thesis by (intro exI [of _ "[]"] exI [of _ xs]) simp
    next
      case False
      with Cons Cons.prems have "m = m'" by simp
      then show ?thesis using d False
        by (intro exI [of _ "x # ys"] exI [of _ zs]) auto
    qed
  qed
qed

lemma last_insort_key:
  fixes f :: "'a \<Rightarrow> real"
  assumes "sorted (map f S)"
  shows "last (insort_key f x S) = (if S = [] \<or> f (last S) < f x then x else last S)"
  using assms
proof (induction S)
  case Nil
  then show ?case by simp
next
  case (Cons a S)
  show ?case
  proof (cases "S = []")
    case True
    then show ?thesis by auto
  next
    case False
    then have "last S \<in> set S" by simp
    with Cons.prems have le: "f a \<le> f (last S)" by simp
    from Cons have IH: "last (insort_key f x S) = (if f (last S) < f x then x else last S)"
      using False by simp
    show ?thesis
    proof (cases "f x \<le> f a")
      case True
      with le have "\<not> f (last S) < f x" by simp
      with True False show ?thesis by simp
    next
      case nle: False
      have "insort_key f x S \<noteq> []" by (metis insort_not_Nil)
      with nle False IH show ?thesis by simp
    qed
  qed
qed

lemma last_sort_key:
  fixes f :: "'a \<Rightarrow> real"
  assumes "xs \<noteq> []"
  shows "\<exists>ys zs. xs = ys @ last (sort_key f xs) # zs
           \<and> (\<forall>y\<in>set ys. f y \<le> f (last (sort_key f xs)))
           \<and> (\<forall>z\<in>set zs. f z < f (last (sort_key f xs)))"
  using assms
proof (induction xs)
  case Nil
  then show ?case by simp
next
  case (Cons x xs)
  let ?S = "sort_key f xs"
  have srt: "sorted (map f ?S)" by (rule sorted_sort_key)
  show ?case
  proof (cases "xs = []")
    case True
    then have "x # xs = [] @ last (sort_key f (x # xs)) # []" by simp
    then show ?thesis by (metis empty_iff list.set(1))
  next
    case False
    then have ne: "?S \<noteq> []" by (metis length_sort length_0_conv)
    from Cons.IH [OF False] obtain ys zs where
      d: "xs = ys @ last ?S # zs" "\<forall>y\<in>set ys. f y \<le> f (last ?S)"
         "\<forall>z\<in>set zs. f z < f (last ?S)" by blast
    show ?thesis
    proof (cases "f (last ?S) < f x")
      case True
      then have l: "last (sort_key f (x # xs)) = x"
        using last_insort_key [OF srt, of x] by simp
      have "set xs = set ys \<union> {last ?S} \<union> set zs"
        using arg_cong [OF d(1), of set] by simp
      then have "\<forall>z\<in>set xs. f z < f x" using d(2,3) True by fastforce
      then show ?thesis unfolding l by (intro exI [of _ "[]"] exI [of _ xs]) simp
    next
      case nlt: False
      then have l: "last (sort_key f (x # xs)) = last ?S"
        using last_insort_key [OF srt, of x] ne by simp
      show ?thesis unfolding l using d nlt
        by (intro exI [of _ "x # ys"] exI [of _ zs]) auto
    qed
  qed
qed

lemma Array_sort_key_neg: "Array_sort (\<lambda>a b. - (f a - f b)) xs = sort_key (\<lambda>a. - f a) xs"
  by (simp add: Array_sort_key_desc)

lemma first_elem_None: "first_elem xs = None \<longleftrightarrow> xs = []"
  by (cases xs) (simp_all add: first_elem_def)

lemma first_elem_Some: "first_elem xs = Some m \<longleftrightarrow> (\<exists>rest. xs = m # rest)"
  by (cases xs) (auto simp: first_elem_def)

lemma sort_key_Nil_iff: "sort_key f xs = [] \<longleftrightarrow> xs = []"
  by (metis length_sort length_0_conv)

lemma filter_eq_append_Cons:
  assumes "filter P xs = ys @ m # zs"
  shows "\<exists>before after. xs = before @ m # after \<and> filter P before = ys \<and> filter P after = zs"
  using assms
proof (induction xs arbitrary: ys)
  case Nil
  then show ?case by simp
next
  case (Cons x xs)
  show ?case
  proof (cases "P x")
    case False
    with Cons.prems have "filter P xs = ys @ m # zs" by simp
    from Cons.IH [OF this] obtain before after where
      "xs = before @ m # after" "filter P before = ys" "filter P after = zs" by blast
    with False show ?thesis by (intro exI [of _ "x # before"] exI [of _ after]) simp
  next
    case True
    show ?thesis
    proof (cases ys)
      case Nil
      with True Cons.prems have "x = m" "filter P xs = zs" by simp_all
      then show ?thesis using Nil by (intro exI [of _ "[]"] exI [of _ xs]) simp
    next
      case (Cons y ys')
      with True Cons.prems have "x = y" "filter P xs = ys' @ m # zs" by simp_all
      from Cons.IH [OF this(2)] obtain before after where
        "xs = before @ m # after" "filter P before = ys'" "filter P after = zs" by blast
      with True \<open>x = y\<close> Cons show ?thesis
        by (intro exI [of _ "x # before"] exI [of _ after]) simp
    qed
  qed
qed

lemma first_sort_filter:
  fixes f :: "'a \<Rightarrow> real"
  assumes "first_elem (sort_key f (filter P xs)) = Some m"
  shows "P m \<and> (\<exists>before after. xs = before @ m # after
            \<and> (\<forall>y\<in>set before. P y \<longrightarrow> f m < f y)
            \<and> (\<forall>z\<in>set after. P z \<longrightarrow> f m \<le> f z))"
proof -
  from assms obtain rest where "sort_key f (filter P xs) = m # rest"
    by (auto simp: first_elem_Some)
  from hd_sort_key [OF this] obtain ys zs where
    d: "filter P xs = ys @ m # zs" "\<forall>y\<in>set ys. f m < f y" "\<forall>z\<in>set zs. f m \<le> f z"
    by blast
  from filter_eq_append_Cons [OF d(1)] obtain before after where
    e: "xs = before @ m # after" "filter P before = ys" "filter P after = zs" by blast
  have "m \<in> set (filter P xs)" using d(1) by simp
  then have "P m" by simp
  moreover have "\<forall>y\<in>set before. P y \<longrightarrow> f m < f y" using d(2) e(2) by auto
  moreover have "\<forall>z\<in>set after. P z \<longrightarrow> f m \<le> f z" using d(3) e(3) by auto
  ultimately show ?thesis using e(1) by blast
qed

lemma last_sort_all:
  fixes f :: "'a \<Rightarrow> real"
  assumes "last_elem (sort_key f xs) = Some m"
  shows "\<exists>before after. xs = before @ m # after
            \<and> (\<forall>y\<in>set before. f y \<le> f m)
            \<and> (\<forall>z\<in>set after. f z < f m)"
proof -
  from assms have ne: "xs \<noteq> []" and m: "m = last (sort_key f xs)"
    by (auto simp: last_elem_def sort_key_Nil_iff split: if_splits)
  from last_sort_key [OF ne, of f] show ?thesis unfolding m by blast
qed


section \<open>Properties\<close>

text \<open>
  C1. For every catalog entry and every usage with non-negative input and output and a
  cached amount between 0 and the input, \<open>cost\<close> is
  \<open>((input - cached)/1e6)*inputPrice + (cached/1e6)*inputPrice*cacheDiscountFactor
  + (output/1e6)*outputPrice\<close>; an omitted cached amount counts as 0.
\<close>

theorem cost_formula:
  assumes "0 \<le> i" and "0 \<le> out" and "0 \<le> c" and "c \<le> i"
  shows "cost reg (Config entry) \<lparr>tk_input = i, tk_output = out, tk_cached = Some c\<rparr>
           = Inr (((i - c) / 1000000) * inputPrice entry
                  + (c / 1000000) * inputPrice entry * cacheDiscountFactor (capabilities entry)
                  + (out / 1000000) * outputPrice entry)
       \<and> cost reg (Config entry) \<lparr>tk_input = i, tk_output = out, tk_cached = None\<rparr>
           = cost reg (Config entry) \<lparr>tk_input = i, tk_output = out, tk_cached = Some 0\<rparr>"
  by (simp add: cost_def)

text \<open>The scenario of the specification: 10000 input, 5000 output, 8000 cached on A is 0.0834.\<close>

theorem cost_formula_witness:
  "(0::real) \<le> 10000 \<and> (0::real) \<le> 5000 \<and> (0::real) \<le> 8000 \<and> (8000::real) \<le> 10000
   \<and> cost [] (Config scenario_A) \<lparr>tk_input = 10000, tk_output = 5000, tk_cached = Some 8000\<rparr>
       = Inr (417 / 5000)
   \<and> cost [] (Config scenario_A) \<lparr>tk_input = 10000, tk_output = 5000, tk_cached = None\<rparr>
       = cost [] (Config scenario_A) \<lparr>tk_input = 10000, tk_output = 5000, tk_cached = Some 0\<rparr>"
  using cost_formula [of 10000 5000 8000 "[]" scenario_A]
  by (simp add: sample_defs)

subsection \<open>cheapest\<close>

text \<open>
  On a registry whose context windows are not negative, the filter of \<^verbatim>\<open>cheapest\<close>
  is the specification's constraint (the skipped test for a bound of 0 makes no
  difference there), and the result is the head of the stable sort by combined price.
\<close>

lemma cheapest_candidate_satisfies:
  assumes "0 \<le> contextWindow m"
  shows "cheapest_candidate caps options m = satisfies caps options m"
  using assms
  by (auto simp: cheapest_candidate_def satisfies_def capabilities_match_def list_all_iff
           split: option.splits)

lemma cheapest_eq:
  assumes "\<forall>m\<in>set (Object_values reg). 0 \<le> contextWindow m"
  shows "cheapest reg caps options =
           first_elem (sort_key (\<lambda>m. inputPrice m + outputPrice m)
                         (filter (satisfies caps options) (Object_values reg)))"
proof -
  have "filter (cheapest_candidate caps options) (Object_values reg)
          = filter (satisfies caps options) (Object_values reg)"
    using assms by (intro filter_cong refl) (simp add: cheapest_candidate_satisfies)
  then show ?thesis
    by (simp add: cheapest_def Let_def Array_sort_key first_elem_def)
qed

text \<open>
  C2. For every partial capability map and options, over a registry whose context
  windows are not negative: \<open>cheapest\<close> is absent if and only if no registry entry
  satisfies the constraints; a result is a registry entry that satisfies every given
  capability field by equality, the minimal context and the provider when given, has
  minimal combined price among all entries satisfying them, and no satisfying entry
  earlier in registry order has the same combined price (ties go to the first found).
\<close>

theorem cheapest_spec:
  assumes "\<forall>m\<in>set (Object_values reg). 0 \<le> contextWindow m"
  shows "(cheapest reg caps options = None
            \<longleftrightarrow> (\<forall>m\<in>set (Object_values reg). \<not> satisfies caps options m))
       \<and> (\<forall>m. cheapest reg caps options = Some m \<longrightarrow>
             m \<in> set (Object_values reg) \<and> satisfies caps options m
           \<and> (\<forall>m'\<in>set (Object_values reg). satisfies caps options m' \<longrightarrow>
                  inputPrice m + outputPrice m \<le> inputPrice m' + outputPrice m')
           \<and> (\<exists>before after. Object_values reg = before @ m # after
                \<and> (\<forall>y\<in>set before. satisfies caps options y \<longrightarrow>
                       inputPrice y + outputPrice y \<noteq> inputPrice m + outputPrice m)))"
proof (intro conjI allI impI)
  show "cheapest reg caps options = None
          \<longleftrightarrow> (\<forall>m\<in>set (Object_values reg). \<not> satisfies caps options m)"
    by (simp add: cheapest_eq [OF assms] first_elem_None sort_key_Nil_iff filter_empty_conv)
next
  fix m
  assume "cheapest reg caps options = Some m"
  then have "first_elem (sort_key (\<lambda>m. inputPrice m + outputPrice m)
               (filter (satisfies caps options) (Object_values reg))) = Some m"
    by (simp add: cheapest_eq [OF assms])
  from first_sort_filter [OF this] obtain before after where
    s: "satisfies caps options m" and
    d: "Object_values reg = before @ m # after"
       "\<forall>y\<in>set before. satisfies caps options y \<longrightarrow>
           inputPrice m + outputPrice m < inputPrice y + outputPrice y"
       "\<forall>z\<in>set after. satisfies caps options z \<longrightarrow>
           inputPrice m + outputPrice m \<le> inputPrice z + outputPrice z"
    by blast
  show "m \<in> set (Object_values reg)" using d(1) by simp
  show "satisfies caps options m" by (rule s)
  show "\<forall>m'\<in>set (Object_values reg). satisfies caps options m' \<longrightarrow>
          inputPrice m + outputPrice m \<le> inputPrice m' + outputPrice m'"
    using d by fastforce
  show "\<exists>before after. Object_values reg = before @ m # after
          \<and> (\<forall>y\<in>set before. satisfies caps options y \<longrightarrow>
                 inputPrice y + outputPrice y \<noteq> inputPrice m + outputPrice m)"
    using d(1,2) by (intro exI [of _ before] exI [of _ after]) fastforce
qed

text \<open>
  On the three sample entries: without vision, at least 100000 tokens of context,
  provider xAI. Both Grok entries qualify at combined price 18; the first one wins.
\<close>

theorem cheapest_spec_witness:
  "Object_values sample_registry = [grok4, grok3, llama31]
   \<and> 0 \<le> contextWindow grok4 \<and> 0 \<le> contextWindow grok3 \<and> 0 \<le> contextWindow llama31
   \<and> cheapest sample_registry [(SupportsVision, VBool False)]
         (Some \<lparr>minContext = Some 100000, opt_provider = Some XAI\<rparr>) = Some grok4
   \<and> satisfies [(SupportsVision, VBool False)]
         (Some \<lparr>minContext = Some 100000, opt_provider = Some XAI\<rparr>) grok4
   \<and> \<not> satisfies [(SupportsVision, VBool False)]
         (Some \<lparr>minContext = Some 100000, opt_provider = Some XAI\<rparr>) llama31
   \<and> inputPrice grok4 + outputPrice grok4 \<le> inputPrice grok3 + outputPrice grok3"
proof -
  have inv: "\<forall>m\<in>set (Object_values sample_registry). 0 \<le> contextWindow m"
    by (simp add: Object_values_def sample_registry_def sample_defs)
  have c: "cheapest sample_registry [(SupportsVision, VBool False)]
         (Some \<lparr>minContext = Some 100000, opt_provider = Some XAI\<rparr>) = Some grok4"
    by (simp add: cheapest_def cheapest_candidate_def capabilities_match_def Object_values_def
        sample_registry_def Array_sort_def first_elem_def sample_defs)
  have s3: "satisfies [(SupportsVision, VBool False)]
         (Some \<lparr>minContext = Some 100000, opt_provider = Some XAI\<rparr>) grok3"
    by (simp add: satisfies_def sample_defs)
  have n: "\<not> satisfies [(SupportsVision, VBool False)]
         (Some \<lparr>minContext = Some 100000, opt_provider = Some XAI\<rparr>) llama31"
    by (simp add: satisfies_def sample_defs)
  have g3: "grok3 \<in> set (Object_values sample_registry)"
    by (simp add: Object_values_def sample_registry_def)
  have v: "Object_values sample_registry = [grok4, grok3, llama31]"
    by (simp add: Object_values_def sample_registry_def)
  have w: "0 \<le> contextWindow grok4" "0 \<le> contextWindow grok3" "0 \<le> contextWindow llama31"
    by (simp_all add: sample_defs)
  from cheapest_spec [OF inv, of "[(SupportsVision, VBool False)]"
         "Some \<lparr>minContext = Some 100000, opt_provider = Some XAI\<rparr>"] c s3 g3 n v w
  show ?thesis by blast
qed


subsection \<open>smartpick\<close>

lemma smartpick_eq:
  "smartpick reg b caps =
     first_elem (sort_key (\<lambda>m. - (inputPrice m + outputPrice m))
                   (filter (within_budget b caps) (Object_values reg)))"
proof -
  have eq: "within_budget b caps =
              (\<lambda>m. inputPrice m + outputPrice m \<le> b
                   \<and> (case caps of None \<Rightarrow> True | Some cs \<Rightarrow> capabilities_match cs m))"
    by (rule ext)
       (simp add: within_budget_def capabilities_match_def list_all_iff split: option.splits)
  have "(case caps of None \<Rightarrow> filter (\<lambda>m. inputPrice m + outputPrice m \<le> b) (Object_values reg)
         | Some cs \<Rightarrow> filter (capabilities_match cs)
                        (filter (\<lambda>m. inputPrice m + outputPrice m \<le> b) (Object_values reg)))
        = filter (within_budget b caps) (Object_values reg)"
    unfolding eq by (cases caps) simp_all
  then show ?thesis
    by (simp add: smartpick_def Let_def Array_sort_key_desc first_elem_def)
qed

text \<open>
  C3. For every budget and optional capability map, \<open>smartpick\<close> is absent exactly
  when no registry entry has a combined price within the budget and matches the given
  capabilities; a result is such an entry whose combined price is maximal among them.
\<close>

theorem smartpick_spec:
  "(smartpick reg b caps = None
      \<longleftrightarrow> (\<forall>m\<in>set (Object_values reg). \<not> within_budget b caps m))
   \<and> (\<forall>m. smartpick reg b caps = Some m \<longrightarrow>
         m \<in> set (Object_values reg) \<and> within_budget b caps m
       \<and> (\<forall>m'\<in>set (Object_values reg). within_budget b caps m' \<longrightarrow>
              inputPrice m' + outputPrice m' \<le> inputPrice m + outputPrice m))"
proof (intro conjI allI impI)
  show "smartpick reg b caps = None
          \<longleftrightarrow> (\<forall>m\<in>set (Object_values reg). \<not> within_budget b caps m)"
    by (simp add: smartpick_eq first_elem_None sort_key_Nil_iff filter_empty_conv)
next
  fix m
  assume "smartpick reg b caps = Some m"
  then have "first_elem (sort_key (\<lambda>m. - (inputPrice m + outputPrice m))
               (filter (within_budget b caps) (Object_values reg))) = Some m"
    by (simp add: smartpick_eq)
  from first_sort_filter [OF this] obtain before after where
    s: "within_budget b caps m" and
    d: "Object_values reg = before @ m # after"
       "\<forall>y\<in>set before. within_budget b caps y \<longrightarrow>
           - (inputPrice m + outputPrice m) < - (inputPrice y + outputPrice y)"
       "\<forall>z\<in>set after. within_budget b caps z \<longrightarrow>
           - (inputPrice m + outputPrice m) \<le> - (inputPrice z + outputPrice z)"
    by blast
  show "m \<in> set (Object_values reg)" using d(1) by simp
  show "within_budget b caps m" by (rule s)
  show "\<forall>m'\<in>set (Object_values reg). within_budget b caps m' \<longrightarrow>
          inputPrice m' + outputPrice m' \<le> inputPrice m + outputPrice m"
    using d by fastforce
qed

text \<open>
  The scenario of the specification: with combined prices 0.55, 2.0 and 7.0 and a budget
  of 5 the entry priced 2.0 is returned, not the one priced 0.55.
\<close>

theorem smartpick_spec_witness:
  "smartpick budget_registry 5 None = Some (scenario_entry ''p2'' (1 / 2) (3 / 2))
   \<and> within_budget 5 None (scenario_entry ''p055'' (15 / 100) (40 / 100))
   \<and> inputPrice (scenario_entry ''p055'' (15 / 100) (40 / 100))
       + outputPrice (scenario_entry ''p055'' (15 / 100) (40 / 100))
     \<le> inputPrice (scenario_entry ''p2'' (1 / 2) (3 / 2))
       + outputPrice (scenario_entry ''p2'' (1 / 2) (3 / 2))
   \<and> \<not> within_budget 5 None (scenario_entry ''p7'' 2 5)"
proof -
  have c: "smartpick budget_registry 5 None = Some (scenario_entry ''p2'' (1 / 2) (3 / 2))"
    by (simp add: smartpick_def Object_values_def budget_registry_def Array_sort_def
          first_elem_def scenario_entry_def sample_defs)
  have w: "within_budget 5 None (scenario_entry ''p055'' (15 / 100) (40 / 100))"
    by (simp add: within_budget_def scenario_entry_def)
  have n: "\<not> within_budget 5 None (scenario_entry ''p7'' 2 5)"
    by (simp add: within_budget_def scenario_entry_def)
  have g: "scenario_entry ''p055'' (15 / 100) (40 / 100) \<in> set (Object_values budget_registry)"
    by (simp add: Object_values_def budget_registry_def)
  from smartpick_spec [of budget_registry 5 None] c w g n
  show ?thesis by blast
qed

subsection \<open>The failure modes of the cost engine\<close>

text \<open>
  For a key that is not a property name of \<^verbatim>\<open>Object.prototype\<close>, each cost operation
  fails exactly when the key has no registry entry, and then with the error
  \<^verbatim>\<open>Unknown model: <key>\<close>; on a configuration object none of them fails.
\<close>

lemma lookup_own_key:
  assumes "k \<notin> set Object_prototype_keys"
  shows "lookup reg k = (case map_of reg k of None \<Rightarrow> Undefined | Some m \<Rightarrow> Entry m)"
  using assms by (simp add: lookup_def split: option.splits)

lemma cost_fails_iff:
  assumes "k \<notin> set Object_prototype_keys"
  shows "cost reg (Key k) tk = Inl e \<longleftrightarrow> map_of reg k = None \<and> e = Error (''Unknown model: '' @ k)"
  using assms by (auto simp: cost_def lookup_own_key Let_def split: option.splits)

lemma maxCost_fails_iff:
  assumes "k \<notin> set Object_prototype_keys"
  shows "maxCost reg (Key k) n = Inl e
           \<longleftrightarrow> map_of reg k = None \<and> e = Error (''Unknown model: '' @ k)"
  using assms by (auto simp: maxCost_def cost_def lookup_own_key Let_def split: option.splits)

lemma cost_Config_total: "\<exists>c. cost reg (Config m) tk = Inr c"
  by (simp add: cost_def Let_def)

lemma maxCost_Config_total: "\<exists>c. maxCost reg (Config m) n = Inr c"
  by (simp add: maxCost_def cost_def Let_def)

lemma cost_Key_entry:
  assumes "map_of reg k = Some entry"
  shows "cost reg (Key k) tk = cost reg (Config entry) tk"
  using assms by (simp add: cost_def lookup_def)

text \<open>
  \<open>compareCosts\<close> fails exactly when some key of the list has no registry entry, with
  the error for the first such key.
\<close>

lemma to_config_cases:
  assumes "\<forall>k. m = Key k \<longrightarrow> k \<notin> set Object_prototype_keys"
  shows "(\<exists>c. to_config reg m = Entry c) \<or> (\<exists>k. m = Key k \<and> map_of reg k = None \<and> to_config reg m = Undefined)"
  using assms by (cases m) (auto simp: lookup_own_key split: option.splits)

lemma compareCosts_map_fails:
  assumes "\<forall>k. Key k \<in> set ms \<longrightarrow> k \<notin> set Object_prototype_keys"
  shows "compareCosts_map reg ms tk = Inl e
           \<longleftrightarrow> (\<exists>before k after. ms = before @ Key k # after
                 \<and> (\<forall>k'. Key k' \<in> set before \<longrightarrow> map_of reg k' \<noteq> None)
                 \<and> map_of reg k = None \<and> e = Error (''Unknown model: '' @ k))"
  using assms
proof (induction ms)
  case Nil
  then show ?case by simp
next
  case (Cons m ms)
  then have IH: "compareCosts_map reg ms tk = Inl e
           \<longleftrightarrow> (\<exists>before k after. ms = before @ Key k # after
                 \<and> (\<forall>k'. Key k' \<in> set before \<longrightarrow> map_of reg k' \<noteq> None)
                 \<and> map_of reg k = None \<and> e = Error (''Unknown model: '' @ k))"
    by simp
  from Cons.prems have "\<forall>k. m = Key k \<longrightarrow> k \<notin> set Object_prototype_keys" by simp
  from to_config_cases [OF this, of reg] show ?case
  proof
    assume "\<exists>c. to_config reg m = Entry c"
    then obtain c where c: "to_config reg m = Entry c" by blast
    obtain v where v: "cost reg (Config c) tk = Inr v" using cost_Config_total by blast
    have known: "\<And>k. m = Key k \<Longrightarrow> map_of reg k \<noteq> None"
      using c Cons.prems by (auto simp: lookup_own_key split: option.splits)
    have "compareCosts_map reg (m # ms) tk = Inl e \<longleftrightarrow> compareCosts_map reg ms tk = Inl e"
      using c v by (simp split: sum.splits)
    also have "\<dots> \<longleftrightarrow> (\<exists>before k after. m # ms = before @ Key k # after
                 \<and> (\<forall>k'. Key k' \<in> set before \<longrightarrow> map_of reg k' \<noteq> None)
                 \<and> map_of reg k = None \<and> e = Error (''Unknown model: '' @ k))"
      (is "_ \<longleftrightarrow> ?R")
    proof
      assume "compareCosts_map reg ms tk = Inl e"
      with IH obtain before k after where
        d: "ms = before @ Key k # after"
           "\<forall>k'. Key k' \<in> set before \<longrightarrow> map_of reg k' \<noteq> None"
           "map_of reg k = None" "e = Error (''Unknown model: '' @ k)" by blast
      show ?R using d known
        by (intro exI [of _ "m # before"] exI [of _ k] exI [of _ after]) auto
    next
      assume ?R
      then obtain before k after where
        d: "m # ms = before @ Key k # after"
           "\<forall>k'. Key k' \<in> set before \<longrightarrow> map_of reg k' \<noteq> None"
           "map_of reg k = None" "e = Error (''Unknown model: '' @ k)" by blast
      have "before \<noteq> []"
      proof
        assume "before = []"
        with d(1) have "m = Key k" by simp
        with known d(3) show False by blast
      qed
      then obtain before' where b: "before = m # before'" using d(1) by (cases before) auto
      with d have "ms = before' @ Key k # after"
        "\<forall>k'. Key k' \<in> set before' \<longrightarrow> map_of reg k' \<noteq> None" by auto
      with d(3,4) IH show "compareCosts_map reg ms tk = Inl e" by blast
    qed
    finally show ?thesis .
  next
    assume "\<exists>k. m = Key k \<and> map_of reg k = None \<and> to_config reg m = Undefined"
    then obtain k where k: "m = Key k" "map_of reg k = None" "to_config reg m = Undefined"
      by blast
    have "compareCosts_map reg (m # ms) tk = Inl e \<longleftrightarrow> e = Error (''Unknown model: '' @ k)"
      using k by auto
    also have "\<dots> \<longleftrightarrow> (\<exists>before k' after. m # ms = before @ Key k' # after
                 \<and> (\<forall>k''. Key k'' \<in> set before \<longrightarrow> map_of reg k'' \<noteq> None)
                 \<and> map_of reg k' = None \<and> e = Error (''Unknown model: '' @ k'))"
      (is "_ \<longleftrightarrow> ?R")
    proof
      assume "e = Error (''Unknown model: '' @ k)"
      then show ?R using k
        by (intro exI [of _ "[]"] exI [of _ k] exI [of _ ms]) simp
    next
      assume ?R
      then obtain before k' after where
        d: "m # ms = before @ Key k' # after"
           "\<forall>k''. Key k'' \<in> set before \<longrightarrow> map_of reg k'' \<noteq> None"
           "map_of reg k' = None" "e = Error (''Unknown model: '' @ k')" by blast
      have "before = []"
      proof (rule ccontr)
        assume "before \<noteq> []"
        then have "m \<in> set before" using d(1) by (cases before) auto
        with k d(2) show False by blast
      qed
      with d(1) k have "k' = k" by simp
      with d(4) show "e = Error (''Unknown model: '' @ k)" by simp
    qed
    finally show ?thesis .
  qed
qed

lemma compareCosts_fails_iff:
  assumes "\<forall>k. Key k \<in> set ms \<longrightarrow> k \<notin> set Object_prototype_keys"
  shows "compareCosts reg ms tk = Inl e
           \<longleftrightarrow> (\<exists>before k after. ms = before @ Key k # after
                 \<and> (\<forall>k'. Key k' \<in> set before \<longrightarrow> map_of reg k' \<noteq> None)
                 \<and> map_of reg k = None \<and> e = Error (''Unknown model: '' @ k))"
proof -
  have "compareCosts reg ms tk = Inl e \<longleftrightarrow> compareCosts_map reg ms tk = Inl e"
    by (cases "compareCosts_map reg ms tk") (simp_all add: compareCosts_def)
  then show ?thesis by (simp only: compareCosts_map_fails [OF assms])
qed

text \<open>
  C4. The cost operations are claimed to fail only with the unknown-model error, and
  exactly for keys without a registry entry. The key \<^verbatim>\<open>constructor\<close> has no entry in
  the sample registry, yet \<open>lookup\<close> returns the inherited value instead of
  \<^verbatim>\<open>undefined\<close>, \<open>exists\<close> holds, and \<open>cost\<close>, \<open>maxCost\<close> and
  \<open>compareCosts\<close> fail with a type error, not with the unknown-model error.
\<close>

theorem cost_inherited_key_TypeError:
  "lookup sample_registry ''constructor'' = Inherited ''constructor''
   \<and> exists sample_registry ''constructor''
   \<and> cost sample_registry (Key ''constructor'')
       \<lparr>tk_input = 1, tk_output = 1, tk_cached = None\<rparr> = Inl TypeError
   \<and> maxCost sample_registry (Key ''constructor'') 1 = Inl TypeError
   \<and> compareCosts sample_registry [Key ''constructor'']
       \<lparr>tk_input = 1, tk_output = 1, tk_cached = None\<rparr> = Inl TypeError"
  by (simp add: lookup_def exists_def cost_def maxCost_def compareCosts_def
        Object_prototype_keys_def sample_registry_def)

subsection \<open>insights\<close>

lemma providers_insights:
  "map_of (providers (insights reg)) p
     = Some (length (filter (\<lambda>m. provider m = p) (Object_values reg)))"
  by (cases p) (simp_all add: insights_def Let_def ModelProvider_values_def)

lemma totalModels_insights: "totalModels (insights reg) = length reg"
  by (simp add: insights_def Let_def Object_values_def)

text \<open>The short labels that the two replacements derive from the watched flags.\<close>

lemma capability_count_keys:
  "map fst (capability_counts (insights reg))
     = [''FunctionCalling'', ''Reasoning'', ''Vision'', ''CodeExecution'', ''WebSearch'',
        ''PromptCaching'', ''Pdf'', ''Audio'']"
  by (simp add: insights_def Let_def capabilityKeys_def)

lemma first_sort_all:
  fixes f :: "'a \<Rightarrow> real"
  assumes "first_elem (sort_key f xs) = Some m"
  shows "\<exists>before after. xs = before @ m # after
            \<and> (\<forall>y\<in>set before. f m < f y)
            \<and> (\<forall>z\<in>set after. f m \<le> f z)"
proof -
  from assms obtain rest where "sort_key f xs = m # rest"
    by (auto simp: first_elem_Some)
  from hd_sort_key [OF this] show ?thesis .
qed

text \<open>
  C5, as amended. \<open>insights\<close> returns a providers record with every enumerated
  provider as a key, mapped to the number of entries of that provider (0 when there is
  none). The cheapest entry and the one with the smallest context window are the first
  occurrence of the minimum in registry order; the most expensive entry and the one
  with the largest context window are the last occurrence of the maximum in registry
  order. On a non-empty registry all four are present.
\<close>

theorem insights_spec:
  "(\<forall>p. map_of (providers (insights reg)) p
          = Some (length (filter (\<lambda>m. provider m = p) (Object_values reg))))
   \<and> (\<forall>p. (\<forall>m\<in>set (Object_values reg). provider m \<noteq> p) \<longrightarrow>
          map_of (providers (insights reg)) p = Some 0)
   \<and> (\<forall>m. pricing_cheapest (insights reg) = Some m \<longrightarrow>
         (\<exists>before after. Object_values reg = before @ m # after
            \<and> (\<forall>y\<in>set before. inputPrice m + outputPrice m < inputPrice y + outputPrice y)
            \<and> (\<forall>z\<in>set after. inputPrice m + outputPrice m \<le> inputPrice z + outputPrice z)))
   \<and> (\<forall>m. pricing_mostExpensive (insights reg) = Some m \<longrightarrow>
         (\<exists>before after. Object_values reg = before @ m # after
            \<and> (\<forall>y\<in>set before. inputPrice y + outputPrice y \<le> inputPrice m + outputPrice m)
            \<and> (\<forall>z\<in>set after. inputPrice z + outputPrice z < inputPrice m + outputPrice m)))
   \<and> (\<forall>m. context_smallest (insights reg) = Some m \<longrightarrow>
         (\<exists>before after. Object_values reg = before @ m # after
            \<and> (\<forall>y\<in>set before. contextWindow m < contextWindow y)
            \<and> (\<forall>z\<in>set after. contextWindow m \<le> contextWindow z)))
   \<and> (\<forall>m. context_largest (insights reg) = Some m \<longrightarrow>
         (\<exists>before after. Object_values reg = before @ m # after
            \<and> (\<forall>y\<in>set before. contextWindow y \<le> contextWindow m)
            \<and> (\<forall>z\<in>set after. contextWindow z < contextWindow m)))
   \<and> (reg \<noteq> [] \<longrightarrow>
         pricing_cheapest (insights reg) \<noteq> None \<and> pricing_mostExpensive (insights reg) \<noteq> None
       \<and> context_smallest (insights reg) \<noteq> None \<and> context_largest (insights reg) \<noteq> None)"
proof -
  have 1: "\<forall>p. map_of (providers (insights reg)) p
          = Some (length (filter (\<lambda>m. provider m = p) (Object_values reg)))"
    by (simp add: providers_insights)
  have 2: "\<forall>p. (\<forall>m\<in>set (Object_values reg). provider m \<noteq> p) \<longrightarrow>
          map_of (providers (insights reg)) p = Some 0"
    by (simp add: providers_insights filter_empty_conv)
  have pc: "pricing_cheapest (insights reg)
              = first_elem (sort_key (\<lambda>m. inputPrice m + outputPrice m) (Object_values reg))"
    by (simp add: insights_def Let_def Array_sort_key)
  have pm: "pricing_mostExpensive (insights reg)
              = last_elem (sort_key (\<lambda>m. inputPrice m + outputPrice m) (Object_values reg))"
    by (simp add: insights_def Let_def Array_sort_key)
  have cs: "context_smallest (insights reg)
              = first_elem (sort_key contextWindow (Object_values reg))"
    by (simp add: insights_def Let_def Array_sort_key)
  have cl: "context_largest (insights reg)
              = last_elem (sort_key contextWindow (Object_values reg))"
    by (simp add: insights_def Let_def Array_sort_key)
  have 3: "\<forall>m. pricing_cheapest (insights reg) = Some m \<longrightarrow>
         (\<exists>before after. Object_values reg = before @ m # after
            \<and> (\<forall>y\<in>set before. inputPrice m + outputPrice m < inputPrice y + outputPrice y)
            \<and> (\<forall>z\<in>set after. inputPrice m + outputPrice m \<le> inputPrice z + outputPrice z))"
    unfolding pc using first_sort_all [of "\<lambda>m. inputPrice m + outputPrice m"] by blast
  have 4: "\<forall>m. pricing_mostExpensive (insights reg) = Some m \<longrightarrow>
         (\<exists>before after. Object_values reg = before @ m # after
            \<and> (\<forall>y\<in>set before. inputPrice y + outputPrice y \<le> inputPrice m + outputPrice m)
            \<and> (\<forall>z\<in>set after. inputPrice z + outputPrice z < inputPrice m + outputPrice m))"
    unfolding pm using last_sort_all [of "\<lambda>m. inputPrice m + outputPrice m"] by blast
  have 5: "\<forall>m. context_smallest (insights reg) = Some m \<longrightarrow>
         (\<exists>before after. Object_values reg = before @ m # after
            \<and> (\<forall>y\<in>set before. contextWindow m < contextWindow y)
            \<and> (\<forall>z\<in>set after. contextWindow m \<le> contextWindow z))"
    unfolding cs using first_sort_all [of contextWindow] by blast
  have 6: "\<forall>m. context_largest (insights reg) = Some m \<longrightarrow>
         (\<exists>before after. Object_values reg = before @ m # after
            \<and> (\<forall>y\<in>set before. contextWindow y \<le> contextWindow m)
            \<and> (\<forall>z\<in>set after. contextWindow z < contextWindow m))"
    unfolding cl using last_sort_all [of contextWindow] by blast
  have 7: "reg \<noteq> [] \<longrightarrow>
         pricing_cheapest (insights reg) \<noteq> None \<and> pricing_mostExpensive (insights reg) \<noteq> None
       \<and> context_smallest (insights reg) \<noteq> None \<and> context_largest (insights reg) \<noteq> None"
    by (simp add: pc pm cs cl first_elem_None last_elem_def sort_key_Nil_iff Object_values_def)
  from 1 2 3 4 5 6 7 show ?thesis by blast
qed

text \<open>
  C5 as stated fails: grok4 precedes grok3 in the sample registry at the same combined
  price, and the most expensive entry reported is grok3, the later one.
\<close>

theorem insights_last_max_counterexample:
  "Object_values sample_registry = [grok4, grok3, llama31]
   \<and> inputPrice grok4 + outputPrice grok4 = inputPrice grok3 + outputPrice grok3
   \<and> inputPrice llama31 + outputPrice llama31 < inputPrice grok4 + outputPrice grok4
   \<and> grok4 \<noteq> grok3
   \<and> pricing_mostExpensive (insights sample_registry) = Some grok3"
  by (simp add: insights_def Let_def Array_sort_def last_elem_def Object_values_def
        sample_registry_def sample_defs)

theorem insights_spec_witness:
  "sample_registry \<noteq> []
   \<and> map_of (providers (insights sample_registry)) XAI = Some 2
   \<and> map_of (providers (insights sample_registry)) GOOGLE = Some 0
   \<and> pricing_cheapest (insights sample_registry) = Some llama31
   \<and> pricing_mostExpensive (insights sample_registry) = Some grok3
   \<and> context_smallest (insights sample_registry) = Some grok3
   \<and> context_largest (insights sample_registry) = Some grok4"
proof -
  have v: "Object_values sample_registry = [grok4, grok3, llama31]"
    by (simp add: Object_values_def sample_registry_def)
  have p: "provider grok4 = XAI" "provider grok3 = XAI" "provider llama31 = OTHERS"
    by (simp_all add: sample_defs)
  have e: "pricing_cheapest (insights sample_registry) = Some llama31"
     "pricing_mostExpensive (insights sample_registry) = Some grok3"
     "context_smallest (insights sample_registry) = Some grok3"
     "context_largest (insights sample_registry) = Some grok4"
    by (simp_all add: insights_def Let_def Array_sort_def last_elem_def first_elem_def
          Object_values_def sample_registry_def sample_defs)
  have n: "sample_registry \<noteq> []" by (simp add: sample_registry_def)
  from insights_spec [of sample_registry] have
    "\<forall>p. map_of (providers (insights sample_registry)) p
          = Some (length (filter (\<lambda>m. provider m = p) (Object_values sample_registry)))"
    by blast
  then have "map_of (providers (insights sample_registry)) XAI = Some 2"
    "map_of (providers (insights sample_registry)) GOOGLE = Some 0"
    by (simp_all add: v p)
  with e n show ?thesis by simp
qed

subsection \<open>supporting\<close>

text \<open>
  C6, as amended. For a boolean capability field, \<open>supporting\<close> returns exactly the
  registry entries whose flag is true; for the two non-boolean fields
  (cacheDiscountFactor, reasoningEffort) it returns every registry entry, whatever the
  value, because the field is never \<^verbatim>\<open>undefined\<close>.
\<close>

theorem supporting_spec:
  "supporting reg cap =
     (if cap = CacheDiscountFactor \<or> cap = ReasoningEffortKey then Object_values reg
      else filter (\<lambda>m. get_capability (capabilities m) cap = VBool True) (Object_values reg))"
  by (cases cap) (simp_all add: supporting_def)

theorem supporting_spec_witness:
  "supporting sample_registry SupportsReasoning = [grok4]
   \<and> supporting sample_registry CacheDiscountFactor = [grok4, grok3, llama31]"
  using supporting_spec [of sample_registry SupportsReasoning]
        supporting_spec [of sample_registry CacheDiscountFactor]
  by (simp add: Object_values_def sample_registry_def sample_defs)

text \<open>
  C6 as stated fails: llama31 carries the default capabilities, with the default cache
  discount factor and the default reasoning effort, and is returned for both fields.
\<close>

theorem supporting_default_counterexample:
  "capabilities llama31 = DEFAULT_MODEL_CAPABILITIES
   \<and> llama31 \<in> set (supporting sample_registry CacheDiscountFactor)
   \<and> llama31 \<in> set (supporting sample_registry ReasoningEffortKey)"
  by (simp add: supporting_def Object_values_def sample_registry_def llama31_def)

subsection \<open>cost with more cached than input tokens\<close>

text \<open>
  C7, as amended. When the cached amount exceeds the input, \<open>cost\<close> neither clamps
  nor rejects: it returns the value of the formula, in which the number of uncached
  tokens is negative, and so is the uncached term for a positive input price.
\<close>

theorem cost_cached_exceeds_input:
  assumes "i < c"
  shows "cost reg (Config entry) \<lparr>tk_input = i, tk_output = out, tk_cached = Some c\<rparr>
           = Inr (((i - c) / 1000000) * inputPrice entry
                  + (c / 1000000) * inputPrice entry * cacheDiscountFactor (capabilities entry)
                  + (out / 1000000) * outputPrice entry)
         \<and> (0 < inputPrice entry \<longrightarrow> ((i - c) / 1000000) * inputPrice entry < 0)"
  using assms by (simp add: cost_def mult_less_0_iff)

theorem cost_cached_exceeds_input_witness:
  "(0::real) < 1000000 \<and> 0 < inputPrice scenario_A
   \<and> cost [] (Config scenario_A) \<lparr>tk_input = 0, tk_output = 0, tk_cached = Some 1000000\<rparr>
        = Inr (- 27 / 10)
   \<and> ((0 - 1000000) / 1000000) * inputPrice scenario_A < 0"
  using cost_cached_exceeds_input [of 0 1000000 "[]" scenario_A 0]
  by (simp add: sample_defs)

text \<open>
  C7 as stated fails: with no input and a million cached tokens on A the call returns
  the negative cost -2.7. It is not rejected, and it is not the cost 0 of the usage with
  the cached amount clamped to the input.
\<close>

theorem cost_no_clamp_counterexample:
  "cost [] (Config scenario_A) \<lparr>tk_input = 0, tk_output = 0, tk_cached = Some 1000000\<rparr>
     = Inr (- 27 / 10)
   \<and> cost [] (Config scenario_A) \<lparr>tk_input = 0, tk_output = 0, tk_cached = Some 0\<rparr> = Inr 0"
  by (simp add: cost_def sample_defs)

subsection \<open>compareCosts\<close>

lemma cost_Config_Inr: "cost reg (Config e) tk = Inr (projr (cost reg (Config e) tk))"
  by (simp add: cost_def Let_def)

lemma compareCosts_map_Config:
  "compareCosts_map reg (map Config es) tk
     = Inr (map (\<lambda>e. \<lparr>mc_model = e, mc_cost = projr (cost reg (Config e) tk)\<rparr>) es)"
proof (induction es)
  case Nil
  then show ?case by simp
next
  case (Cons e es)
  obtain c where c: "cost reg (Config e) tk = Inr c" using cost_Config_Inr by blast
  with Cons show ?case by simp
qed

text \<open>
  C8. For every list of catalog entries and every usage, \<open>compareCosts\<close> returns one
  pair per input entry, each with the cost that \<open>cost\<close> gives for its entry, in
  ascending order of cost, and the entries of equal cost in their input order.
\<close>

theorem compareCosts_spec:
  "\<exists>rs. compareCosts reg (map Config entries) tk = Inr rs
       \<and> length rs = length entries
       \<and> mset (map mc_model rs) = mset entries
       \<and> (\<forall>r\<in>set rs. cost reg (Config (mc_model r)) tk = Inr (mc_cost r))
       \<and> sorted (map mc_cost rs)
       \<and> (\<forall>k. map mc_model (filter (\<lambda>r. mc_cost r = k) rs)
               = filter (\<lambda>e. cost reg (Config e) tk = Inr k) entries)"
proof -
  define pair where "pair = (\<lambda>e. \<lparr>mc_model = e, mc_cost = projr (cost reg (Config e) tk)\<rparr>)"
  define rs where "rs = sort_key mc_cost (map pair entries)"
  have model_pair: "\<And>e. mc_model (pair e) = e" by (simp add: pair_def)
  have cost_pair: "\<And>e k. mc_cost (pair e) = k \<longleftrightarrow> cost reg (Config e) tk = Inr k"
  proof -
    fix e k
    obtain c where c: "cost reg (Config e) tk = Inr c" using cost_Config_Inr by blast
    then show "mc_cost (pair e) = k \<longleftrightarrow> cost reg (Config e) tk = Inr k"
      by (simp add: pair_def)
  qed
  have 1: "compareCosts reg (map Config entries) tk = Inr rs"
    by (simp add: compareCosts_def compareCosts_map_Config Array_sort_key rs_def pair_def)
  have 2: "length rs = length entries" by (simp add: rs_def)
  have "mset rs = mset (map pair entries)" by (simp add: rs_def)
  then have "mset (map mc_model rs) = mset (map mc_model (map pair entries))"
    by (metis mset_map)
  then have 3: "mset (map mc_model rs) = mset entries"
    by (simp add: model_pair comp_def)
  have 4: "\<forall>r\<in>set rs. cost reg (Config (mc_model r)) tk = Inr (mc_cost r)"
    using cost_pair by (auto simp: rs_def model_pair)
  have 5: "sorted (map mc_cost rs)" by (simp add: rs_def sorted_sort_key)
  have 6: "map mc_model (filter (\<lambda>r. mc_cost r = k) rs)
             = filter (\<lambda>e. cost reg (Config e) tk = Inr k) entries" for k
  proof -
    have "filter (\<lambda>r. mc_cost r = k) rs = filter (\<lambda>r. mc_cost r = k) (map pair entries)"
      unfolding rs_def by (rule sort_key_stable)
    also have "\<dots> = map pair (filter (\<lambda>e. cost reg (Config e) tk = Inr k) entries)"
      by (simp add: filter_map comp_def cost_pair)
    finally show ?thesis by (simp add: comp_def model_pair)
  qed
  from 1 2 3 4 5 6 show ?thesis by blast
qed

text \<open>The scenario of the specification: B (0.15 for a million input tokens) before A (3).\<close>

theorem compareCosts_spec_witness:
  "compareCosts [] (map Config [scenario_A, scenario_B])
       \<lparr>tk_input = 1000000, tk_output = 0, tk_cached = None\<rparr>
     = Inr [\<lparr>mc_model = scenario_B, mc_cost = 15 / 100\<rparr>, \<lparr>mc_model = scenario_A, mc_cost = 3\<rparr>]
   \<and> cost [] (Config scenario_B) \<lparr>tk_input = 1000000, tk_output = 0, tk_cached = None\<rparr>
       = Inr (15 / 100)
   \<and> cost [] (Config scenario_A) \<lparr>tk_input = 1000000, tk_output = 0, tk_cached = None\<rparr>
       = Inr 3"
proof -
  have c: "compareCosts [] (map Config [scenario_A, scenario_B])
       \<lparr>tk_input = 1000000, tk_output = 0, tk_cached = None\<rparr>
     = Inr [\<lparr>mc_model = scenario_B, mc_cost = 15 / 100\<rparr>, \<lparr>mc_model = scenario_A, mc_cost = 3\<rparr>]"
    by (simp add: compareCosts_def cost_def Array_sort_def scenario_B_def scenario_entry_def
          sample_defs)
  from compareCosts_spec [of "[]" "[scenario_A, scenario_B]"
         "\<lparr>tk_input = 1000000, tk_output = 0, tk_cached = None\<rparr>"]
  obtain rs where
    r: "compareCosts [] (map Config [scenario_A, scenario_B])
          \<lparr>tk_input = 1000000, tk_output = 0, tk_cached = None\<rparr> = Inr rs"
       "\<forall>r\<in>set rs. cost [] (Config (mc_model r))
          \<lparr>tk_input = 1000000, tk_output = 0, tk_cached = None\<rparr> = Inr (mc_cost r)"
    by blast
  from r(1) c have "rs = [\<lparr>mc_model = scenario_B, mc_cost = 15 / 100\<rparr>,
                          \<lparr>mc_model = scenario_A, mc_cost = 3\<rparr>]" by simp
  with r(2) c show ?thesis by simp
qed

subsection \<open>maxCost\<close>

text \<open>
  C9. For every entry with non-negative prices and every non-negative input count,
  \<open>maxCost\<close> is the cost of that input with the full \<open>maxOutputTokens\<close> and nothing
  cached, and it is at least the cost of the same input with any output count between 0
  and \<open>maxOutputTokens\<close>.
\<close>

theorem maxCost_dominance:
  assumes "0 \<le> inputPrice entry" and "0 \<le> outputPrice entry"
    and "0 \<le> n" and "0 \<le> k" and "k \<le> maxOutputTokens entry"
  shows "maxCost reg (Config entry) n
           = cost reg (Config entry)
               \<lparr>tk_input = n, tk_output = maxOutputTokens entry, tk_cached = Some 0\<rparr>
         \<and> (\<exists>worst actual.
               maxCost reg (Config entry) n = Inr worst
             \<and> cost reg (Config entry) \<lparr>tk_input = n, tk_output = k, tk_cached = None\<rparr>
                 = Inr actual
             \<and> actual \<le> worst)"
proof -
  have "(k / 1000000) * outputPrice entry \<le> (maxOutputTokens entry / 1000000) * outputPrice entry"
    using assms(2,5) by (intro mult_right_mono) (simp_all add: divide_right_mono)
  then show ?thesis by (simp add: maxCost_def cost_def)
qed

theorem maxCost_dominance_witness:
  "(0::real) \<le> inputPrice grok4 \<and> 0 \<le> outputPrice grok4 \<and> (0::real) \<le> 50000 \<and> (0::real) \<le> 2000
   \<and> 2000 \<le> maxOutputTokens grok4
   \<and> maxCost [] (Config grok4) 50000 = Inr (207 / 100)
   \<and> cost [] (Config grok4) \<lparr>tk_input = 50000, tk_output = 2000, tk_cached = None\<rparr>
        = Inr (18 / 100)"
proof -
  have h: "0 \<le> inputPrice grok4" "0 \<le> outputPrice grok4" "(0::real) \<le> 50000"
    "(0::real) \<le> 2000" "2000 \<le> maxOutputTokens grok4"
    by (simp_all add: sample_defs)
  from maxCost_dominance [OF h, of "[]"] h show ?thesis
    by (simp add: cost_def sample_defs)
qed

subsection \<open>ranked\<close>

lemma ranked_asc: "ranked reg by (Some Asc) = sort_key (getValue by) (Object_values reg)"
  by (simp add: ranked_def Array_sort_key)

lemma ranked_default: "ranked reg by None = sort_key (getValue by) (Object_values reg)"
  by (simp add: ranked_def Array_sort_key)

lemma ranked_desc:
  "ranked reg by (Some Desc) = sort_key (\<lambda>m. - getValue by m) (Object_values reg)"
  by (simp add: ranked_def Array_sort_key_desc)

lemma sorted_map_neg_rev:
  fixes f :: "'a \<Rightarrow> real"
  shows "sorted (map (\<lambda>x. - f x) (rev xs)) = sorted (map f xs)"
  by (simp add: sorted_map sorted_wrt_rev)

lemma rev_filter_distinct_key:
  assumes "distinct (map f xs)"
  shows "rev (filter (\<lambda>x. f x = v) xs) = filter (\<lambda>x. f x = v) xs"
  using assms
proof (induction xs)
  case Nil
  then show ?case by simp
next
  case (Cons x xs)
  show ?case
  proof (cases "f x = v")
    case True
    from Cons.prems have "f x \<notin> f ` set xs" by simp
    then have "\<forall>y\<in>set xs. f y \<noteq> f x" by (metis imageI)
    with True have "filter (\<lambda>y. f y = v) xs = []"
      by (simp add: filter_empty_conv)
    with True show ?thesis by simp
  next
    case False
    with Cons show ?thesis by simp
  qed
qed

lemma rev_sort_key_distinct:
  fixes f :: "'a \<Rightarrow> real"
  assumes "distinct (map f xs)"
  shows "rev (sort_key f xs) = sort_key (\<lambda>x. - f x) xs"
proof (rule properties_for_sort_key [symmetric])
  show "mset (rev (sort_key f xs)) = mset xs" by simp
next
  fix k
  have "filter (\<lambda>x. f x = f k) (rev (sort_key f xs)) = rev (filter (\<lambda>x. f x = f k) (sort_key f xs))"
    by (simp add: rev_filter)
  also have "\<dots> = rev (filter (\<lambda>x. f x = f k) xs)" by (simp add: sort_key_stable)
  also have "\<dots> = filter (\<lambda>x. f x = f k) xs" by (rule rev_filter_distinct_key [OF assms])
  finally have "filter (\<lambda>x. f x = f k) (rev (sort_key f xs)) = filter (\<lambda>x. f x = f k) xs" .
  moreover have "(\<lambda>x. - f k = - f x) = (\<lambda>x. f x = f k)" by auto
  ultimately show "filter (\<lambda>x. - f k = - f x) (rev (sort_key f xs)) = filter (\<lambda>x. - f k = - f x) xs"
    by simp
next
  show "sorted (map (\<lambda>x. - f x) (rev (sort_key f xs)))"
    by (simp only: sorted_map_neg_rev sorted_sort_key)
qed

lemma ranked_by_getValue:
  "mset (ranked reg by ord) = mset (Object_values reg)
   \<and> ranked reg by None = ranked reg by (Some Asc)
   \<and> sorted (map (getValue by) (ranked reg by (Some Asc)))
   \<and> sorted (rev (map (getValue by) (ranked reg by (Some Desc))))
   \<and> (\<forall>k. filter (\<lambda>m. getValue by m = k) (ranked reg by ord)
           = filter (\<lambda>m. getValue by m = k) (Object_values reg))
   \<and> (distinct (map (getValue Price) (Object_values reg)) \<longrightarrow>
         rev (ranked reg Price (Some Asc)) = ranked reg Price (Some Desc))"
proof -
  have ord: "ord = None \<or> ord = Some Asc \<or> ord = Some Desc"
    by (cases ord) (auto intro: sort_order.exhaust)
  then have 1: "mset (ranked reg by ord) = mset (Object_values reg)"
    by (auto simp: ranked_asc ranked_default ranked_desc)
  have 2: "ranked reg by None = ranked reg by (Some Asc)"
    by (simp add: ranked_asc ranked_default)
  have 3: "sorted (map (getValue by) (ranked reg by (Some Asc)))"
    by (simp add: ranked_asc sorted_sort_key)
  have "sorted (map (\<lambda>m. - getValue by m) (ranked reg by (Some Desc)))"
    unfolding ranked_desc by (rule sorted_sort_key)
  then have "sorted (map (\<lambda>x. - (- getValue by x)) (rev (ranked reg by (Some Desc))))"
    by (simp only: sorted_map_neg_rev)
  then have 4: "sorted (rev (map (getValue by) (ranked reg by (Some Desc))))"
    by (simp add: rev_map)
  have 5: "filter (\<lambda>m. getValue by m = k) (ranked reg by ord)
           = filter (\<lambda>m. getValue by m = k) (Object_values reg)" for k
  proof -
    have d: "filter (\<lambda>m. getValue by m = k) (sort_key (\<lambda>m. - getValue by m) (Object_values reg))
           = filter (\<lambda>m. getValue by m = k) (Object_values reg)"
      using sort_key_stable [of "\<lambda>m. - getValue by m" "- k" "Object_values reg"] by simp
    from ord show ?thesis
      by (auto simp: ranked_asc ranked_default ranked_desc sort_key_stable d)
  qed
  have 6: "distinct (map (getValue Price) (Object_values reg)) \<longrightarrow>
         rev (ranked reg Price (Some Asc)) = ranked reg Price (Some Desc)"
    by (simp only: ranked_asc ranked_desc) (blast intro: rev_sort_key_distinct)
  from 1 2 3 4 5 6 show ?thesis by blast
qed

text \<open>
  C10. For every metric, \<open>ranked\<close> returns all registry entries (the same entries,
  as often), sorted by the metric's value, which is \<open>inputPrice + outputPrice\<close> for
  the price, \<open>contextWindow\<close> for the context and \<open>maxOutputTokens\<close> for the output:
  ascending by default and for \<^verbatim>\<open>'asc'\<close>, descending for \<^verbatim>\<open>'desc'\<close>; entries of
  equal value keep their registry order in either direction. When no two entries have
  the same combined price, the ascending ranking by price reversed is the descending
  one.
\<close>

theorem ranked_spec:
  "mset (ranked reg by ord) = mset (Object_values reg)
   \<and> ranked reg by None = ranked reg by (Some Asc)
   \<and> sorted (map (\<lambda>m. inputPrice m + outputPrice m) (ranked reg Price (Some Asc)))
   \<and> sorted (map contextWindow (ranked reg Context (Some Asc)))
   \<and> sorted (map maxOutputTokens (ranked reg Output (Some Asc)))
   \<and> sorted (rev (map (\<lambda>m. inputPrice m + outputPrice m) (ranked reg Price (Some Desc))))
   \<and> sorted (rev (map contextWindow (ranked reg Context (Some Desc))))
   \<and> sorted (rev (map maxOutputTokens (ranked reg Output (Some Desc))))
   \<and> (\<forall>k. filter (\<lambda>m. inputPrice m + outputPrice m = k) (ranked reg Price ord)
           = filter (\<lambda>m. inputPrice m + outputPrice m = k) (Object_values reg))
   \<and> (\<forall>k. filter (\<lambda>m. contextWindow m = k) (ranked reg Context ord)
           = filter (\<lambda>m. contextWindow m = k) (Object_values reg))
   \<and> (\<forall>k. filter (\<lambda>m. maxOutputTokens m = k) (ranked reg Output ord)
           = filter (\<lambda>m. maxOutputTokens m = k) (Object_values reg))
   \<and> (distinct (map (\<lambda>m. inputPrice m + outputPrice m) (Object_values reg)) \<longrightarrow>
         rev (ranked reg Price (Some Asc)) = ranked reg Price (Some Desc))"
proof -
  have f: "getValue Price = (\<lambda>m. inputPrice m + outputPrice m)"
    "getValue Context = contextWindow" "getValue Output = maxOutputTokens"
    by (rule ext, simp)+
  note g = ranked_by_getValue [of reg "by" ord]
  note p = ranked_by_getValue [of reg Price ord, unfolded f]
  note c = ranked_by_getValue [of reg Context ord, unfolded f]
  note out = ranked_by_getValue [of reg Output ord, unfolded f]
  from g have 1: "mset (ranked reg by ord) = mset (Object_values reg)"
    and 2: "ranked reg by None = ranked reg by (Some Asc)" by blast+
  from 1 2 p c out show ?thesis by blast
qed

text \<open>
  On the registry priced 0.55, 2.0 and 7.0 the two rankings by price mirror each other.
  On the three sample entries the metrics give three different rankings: llama31 is the
  cheapest, grok4 has the largest context window and the smallest output limit, and
  grok3 stays before llama31 where the two are equal.
\<close>

theorem ranked_spec_witness:
  "distinct (map (\<lambda>m. inputPrice m + outputPrice m) (Object_values budget_registry))
   \<and> rev (ranked budget_registry Price (Some Asc)) = ranked budget_registry Price (Some Desc)
   \<and> ranked budget_registry Price (Some Desc)
       = [scenario_entry ''p7'' 2 5, scenario_entry ''p2'' (1 / 2) (3 / 2),
          scenario_entry ''p055'' (15 / 100) (40 / 100)]
   \<and> ranked sample_registry Price None = [llama31, grok4, grok3]
   \<and> ranked sample_registry Context (Some Desc) = [grok4, grok3, llama31]
   \<and> ranked sample_registry Output (Some Asc) = [grok4, grok3, llama31]
   \<and> sorted (rev (map contextWindow (ranked sample_registry Context (Some Desc))))
   \<and> sorted (map maxOutputTokens (ranked sample_registry Output (Some Asc)))"
proof -
  have d: "distinct (map (\<lambda>m. inputPrice m + outputPrice m) (Object_values budget_registry))"
    by (simp add: Object_values_def budget_registry_def scenario_entry_def)
  have r: "ranked budget_registry Price (Some Desc)
       = [scenario_entry ''p7'' 2 5, scenario_entry ''p2'' (1 / 2) (3 / 2),
          scenario_entry ''p055'' (15 / 100) (40 / 100)]"
    by (simp add: ranked_def Array_sort_def Object_values_def budget_registry_def
          scenario_entry_def)
  have s: "ranked sample_registry Price None = [llama31, grok4, grok3]"
    "ranked sample_registry Context (Some Desc) = [grok4, grok3, llama31]"
    "ranked sample_registry Output (Some Asc) = [grok4, grok3, llama31]"
    by (simp_all add: ranked_def Array_sort_def Object_values_def sample_registry_def
          sample_defs)
  from ranked_spec [of budget_registry Price "Some Desc"] d
  have m: "rev (ranked budget_registry Price (Some Asc)) = ranked budget_registry Price (Some Desc)"
    by blast
  from ranked_spec [of sample_registry Price None]
  have t: "sorted (rev (map contextWindow (ranked sample_registry Context (Some Desc))))"
    "sorted (map maxOutputTokens (ranked sample_registry Output (Some Asc)))"
    by blast+
  from d m r s t show ?thesis by blast
qed

end
